theory Spec2Isabelle
  imports Main "HOL-Library.Word" "HOL-Library.Sublist"
begin

unbundle bit_operations_syntax

section \<open>Shared data\<close>

text \<open>
  The bridge has three parts: the signaling session
  (\<^verbatim>\<open>receiver/signaling_channel/signaling_channel.go\<close>), the negotiator
  (\<^verbatim>\<open>peer_connection_channel\<close>, type \<^verbatim>\<open>PeerConnectionChannel\<close>) and the frame
  assembler (\<^verbatim>\<open>WebmSaver.PushVP8\<close> and the \<^verbatim>\<open>OnTrack\<close> callback).
  Goroutines communicate over channels; a channel is represented by the list of the
  values sent on it so far, in send order.  Calls to \<^verbatim>\<open>slog\<close> (and the
  lines printed with \<^verbatim>\<open>fmt.Println\<close>) are kept as a list of entries, so that "logs
  and continues" is an observable effect.
\<close>

type_synonym byte = "8 word"
type_synonym raw = string

datatype log_entry = Info string | Error string | Stdout string

datatype SDPType = SDPTypeOffer | SDPTypePranswer | SDPTypeAnswer | SDPTypeRollback

record SessionDescription =
  Type :: SDPType
  SDP :: string

text \<open>\<^verbatim>\<open>webrtc.ICECandidateInit\<close>: the two pointer fields are options.\<close>

record ICECandidateInit =
  Candidate :: string
  SDPMid :: "string option"
  SDPMLineIndex :: "16 word option"

section \<open>The signaling session\<close>

text \<open>\<^verbatim>\<open>ICECandidateJSON\<close>, the wire form of a remote candidate.\<close>

record ICECandidateJSON =
  jCandidate :: string
  jSDPMid :: string
  jSDPMLineIndex :: "16 word"
  jType :: string

text \<open>The values \<^verbatim>\<open>composeActions\<close> builds, and the values handed to \<^verbatim>\<open>json.Marshal\<close>.\<close>

datatype action =
  add_stream string
  | add_video_track string string string

datatype json_value =
  Configure "action list"
  | Answer SessionDescription

text \<open>
  \<^verbatim>\<open>encoding/json\<close> is a collaborator: the session only depends on whether an
  encoding or decoding succeeds and on the value it yields.  \<open>None\<close> is the error
  return.
\<close>

record json_codec =
  Marshal :: "json_value \<Rightarrow> raw option"
  UnmarshalSessionDescription :: "raw \<Rightarrow> SessionDescription option"
  UnmarshalICECandidateJSON :: "raw \<Rightarrow> ICECandidateJSON option"

text \<open>
  \<^verbatim>\<open>composeActions\<close>; the stream id is the token \<^verbatim>\<open>newStreamId\<close> draws at random,
  \<open>nameIn\<close> is \<^verbatim>\<open>s.cfg.Topics[s.topicIdx].NameIn\<close>.
\<close>

definition composeActions :: "string \<Rightarrow> string \<Rightarrow> json_value" where
  "composeActions streamId nameIn =
     Configure
       [add_stream streamId,
        add_video_track streamId (streamId @ ''/subscribed_video'') (''ros_image:/'' @ nameIn)]"

definition toTextMessage :: "json_codec \<Rightarrow> json_value \<Rightarrow> raw option" where
  "toTextMessage J data = Marshal J data"

text \<open>
  \<^verbatim>\<open>strings.Replace(s, old, new, 1)\<close>: the leftmost occurrence of \<open>old\<close> is replaced,
  a string without one is returned as it is.
\<close>

fun strings_Replace1 :: "string \<Rightarrow> string \<Rightarrow> string \<Rightarrow> string" where
  "strings_Replace1 [] old new = (if old = [] then new else [])"
| "strings_Replace1 (c # cs) old new =
     (if prefix old (c # cs) then new @ drop (length old) (c # cs)
      else c # strings_Replace1 cs old new)"

text \<open>Line 144 of \<^verbatim>\<open>Spin\<close>: the rewrite of the answer before it is marshalled.\<close>

definition patchAnswer :: "SessionDescription \<Rightarrow> SessionDescription" where
  "patchAnswer a = a\<lparr>SDP := strings_Replace1 (SDP a) ''m=video 0'' ''m=video 9''\<rparr>"

text \<open>
  How a run of \<^verbatim>\<open>Spin\<close> over a finite prefix of the inbound messages ends:
  it returned, it panicked, or it is suspended in a channel receive.
\<close>

datatype status = Returned | Panicked | BlockedOnRecv | BlockedOnReply

record session =
  written :: "raw list"
  sdpChan :: "SessionDescription list"
  candidateChan :: "ICECandidateInit list"
  slog :: "log_entry list"
  status :: status

text \<open>The candidate relay, lines 151 to 166: \<^verbatim>\<open>continue\<close> on a decode error.\<close>

fun relayCandidates :: "json_codec \<Rightarrow> raw list \<Rightarrow> session \<Rightarrow> session" where
  "relayCandidates J [] s = s\<lparr>status := BlockedOnRecv\<rparr>"
| "relayCandidates J (candidateRaw # rest) s =
     (case UnmarshalICECandidateJSON J candidateRaw of
        None \<Rightarrow> relayCandidates J rest (s\<lparr>slog := slog s @ [Error ''unmarshal error'']\<rparr>)
      | Some candidateJSON \<Rightarrow>
          relayCandidates J rest
            (s\<lparr>slog := slog s @ [Info ''recv candidate''],
               candidateChan := candidateChan s @
                 [\<lparr>Candidate = jCandidate candidateJSON,
                   SDPMid = Some (jSDPMid candidateJSON),
                   SDPMLineIndex = Some (jSDPMLineIndex candidateJSON)\<rparr>]\<rparr>))"

text \<open>
  \<^verbatim>\<open>SignalingChannel.Spin\<close>, in three pieces: the function up to the first
  receive, lines 132 to 141 (\<open>awaitOffer\<close>), and lines 144 to 150 followed by the
  relay loop (\<open>sendAnswer\<close>).  \<open>dialOk\<close> is the outcome of the websocket dial,
  \<open>inbox\<close> the messages the reader goroutine puts on \<^verbatim>\<open>s.recv\<close>, \<open>reply\<close> the
  value the negotiator sends on \<^verbatim>\<open>sdpReplyChan\<close> (\<open>None\<close>: it never does).
\<close>

definition sendAnswer ::
  "json_codec \<Rightarrow> SessionDescription \<Rightarrow> raw list \<Rightarrow> session \<Rightarrow> session"
where
  "sendAnswer J answer rest s3 =
     (let answer' = patchAnswer answer;
          m = Marshal J (Answer answer');
          s4 = (case m of
                  None \<Rightarrow> s3\<lparr>slog := slog s3 @ [Error ''marshal error'']\<rparr>
                | Some _ \<Rightarrow> s3);
          payload = (case m of None \<Rightarrow> [] | Some p \<Rightarrow> p);
          s5 = s4\<lparr>written := written s4 @ [payload],
                  slog := slog s4 @ [Info ''send answer'']\<rparr>
      in relayCandidates J rest s5)"

definition awaitOffer ::
  "json_codec \<Rightarrow> raw list \<Rightarrow> SessionDescription option \<Rightarrow> session \<Rightarrow> session"
where
  "awaitOffer J inbox reply s2 =
     (case inbox of
        [] \<Rightarrow> s2\<lparr>status := BlockedOnRecv\<rparr>
      | recvRaw # rest \<Rightarrow>
          (case UnmarshalSessionDescription J recvRaw of
             None \<Rightarrow> s2\<lparr>slog := slog s2 @ [Error ''unmarshal error'']\<rparr>
           | Some sdp \<Rightarrow>
               (let s3 = s2\<lparr>sdpChan := sdpChan s2 @ [sdp],
                           slog := slog s2 @ [Info ''recv sdp'']\<rparr>
                in case reply of
                     None \<Rightarrow> s3\<lparr>status := BlockedOnReply\<rparr>
                   | Some answer \<Rightarrow> sendAnswer J answer rest s3)))"

definition Spin ::
  "json_codec \<Rightarrow> bool \<Rightarrow> string \<Rightarrow> string \<Rightarrow> raw list \<Rightarrow> SessionDescription option \<Rightarrow> session"
where
  "Spin J dialOk streamId nameIn inbox reply =
     (let s0 = \<lparr>written = [], sdpChan = [], candidateChan = [],
                slog = [Info ''start spinning''], status = Returned\<rparr>
      in if \<not> dialOk then s0\<lparr>status := Panicked\<rparr>
         else
           (let s1 = s0\<lparr>slog := slog s0 @ [Info ''dial success'']\<rparr>
            in case toTextMessage J (composeActions streamId nameIn) of
                 None \<Rightarrow> s1\<lparr>slog := slog s1 @ [Error ''compose message error'']\<rparr>
               | Some cfgMessage \<Rightarrow>
                   awaitOffer J inbox reply
                     (s1\<lparr>written := written s1 @ [cfgMessage],
                         slog := slog s1 @ [Info ''send configure message'']\<rparr>)))"

text \<open>The \<^verbatim>\<open>ICECandidateInit\<close> the relay loop builds from a decoded record.\<close>

definition toInit :: "ICECandidateJSON \<Rightarrow> ICECandidateInit" where
  "toInit cj = \<lparr>Candidate = jCandidate cj, SDPMid = Some (jSDPMid cj),
                SDPMLineIndex = Some (jSDPMLineIndex cj)\<rparr>"

text \<open>An example codec, used to run the definitions on concrete messages.\<close>

definition exampleCodec :: json_codec where
  "exampleCodec =
     \<lparr>Marshal = (\<lambda>v. case v of Configure _ \<Rightarrow> Some ''configure'' | Answer a \<Rightarrow> Some (SDP a)),
      UnmarshalSessionDescription =
        (\<lambda>r. if take 2 r = ''v='' then Some \<lparr>Type = SDPTypeOffer, SDP = r\<rparr> else None),
      UnmarshalICECandidateJSON =
        (\<lambda>r. if take 10 r = ''candidate:''
              then Some \<lparr>jCandidate = r, jSDPMid = ''0'', jSDPMLineIndex = 0,
                         jType = ''ice_candidate''\<rparr>
              else None)\<rparr>"

definition exampleAnswer :: SessionDescription where
  "exampleAnswer = \<lparr>Type = SDPTypeAnswer, SDP = ''v=0 m=video 0 m=video 0''\<rparr>"

section \<open>The negotiator\<close>

text \<open>
  A step of a goroutine either goes on with a value, or panics.  Nothing recovers a panic
  in this program, so \<open>Panic\<close> ends the run; it carries the state at the panic, so
  that the effects that had already happened stay visible.
\<close>

datatype ('s, 'a) run = Panic 's | Ok 'a

definition bind :: "('s, 'a) run \<Rightarrow> ('a \<Rightarrow> ('s, 'b) run) \<Rightarrow> ('s, 'b) run" where
  "bind m f = (case m of Panic s \<Rightarrow> Panic s | Ok a \<Rightarrow> f a)"

text \<open>
  What \<^verbatim>\<open>handleSignalingMessage\<close> and the \<^verbatim>\<open>OnICECandidate\<close> callback do to the
  outside: calls into the negotiation engine, the send on \<^verbatim>\<open>sdpReplyChan\<close>, the
  operations on \<^verbatim>\<open>candidatesMux\<close>, and calls of \<^verbatim>\<open>pc.signalCandidate\<close>.  The
  channel state keeps them in the order they happen.
\<close>

datatype pc_effect =
  SetRemoteDescription SessionDescription
  | CreateAnswer
  | SendReply SessionDescription
  | SetLocalDescription SessionDescription
  | AddICECandidate ICECandidateInit
  | Lock
  | Unlock
  | SignalCandidate ICECandidateInit

text \<open>
  The negotiation engine (\<^verbatim>\<open>webrtc.PeerConnection\<close>) and the function behind
  \<^verbatim>\<open>pc.signalCandidate\<close> are collaborators.  The record says which calls succeed
  and what \<^verbatim>\<open>CreateAnswer\<close> returns for the remote description in force
  (\<open>None\<close>: an error); \<open>'c\<close> is \<^verbatim>\<open>webrtc.ICECandidate\<close>.
\<close>

record 'c engine =
  setRemoteDescriptionOk :: "SessionDescription \<Rightarrow> bool"
  createAnswer :: "SessionDescription option \<Rightarrow> SessionDescription option"
  setLocalDescriptionOk :: "SessionDescription \<Rightarrow> bool"
  addICECandidateOk :: "ICECandidateInit \<Rightarrow> bool"
  ToJSON :: "'c \<Rightarrow> ICECandidateInit"
  signalCandidateOk :: "ICECandidateInit \<Rightarrow> bool"

text \<open>
  The state both goroutines see: \<^verbatim>\<open>pc.peerConnection.RemoteDescription()\<close>, which is
  \<^verbatim>\<open>nil\<close> until \<^verbatim>\<open>SetRemoteDescription\<close> has succeeded, the slice
  \<^verbatim>\<open>pc.pendingCandidates\<close>, and the effects so far.
\<close>

record 'c PeerConnectionChannel =
  RemoteDescription :: "SessionDescription option"
  pendingCandidates :: "'c list"
  effects :: "pc_effect list"

definition emit :: "pc_effect \<Rightarrow> 'c PeerConnectionChannel \<Rightarrow> 'c PeerConnectionChannel" where
  "emit e pc = pc\<lparr>effects := effects pc @ [e]\<rparr>"

definition signalCandidate ::
  "'c engine \<Rightarrow> 'c \<Rightarrow> 'c PeerConnectionChannel \<Rightarrow> ('c PeerConnectionChannel, 'c PeerConnectionChannel) run"
where
  "signalCandidate E c pc =
     (let pc' = emit (SignalCandidate (ToJSON E c)) pc
      in if signalCandidateOk E (ToJSON E c) then Ok pc' else Panic pc')"

text \<open>
  The callback of lines 273 to 285, for a candidate or \<^verbatim>\<open>nil\<close> (\<open>None\<close>).  It
  holds \<^verbatim>\<open>candidatesMux\<close> from its first statement to its return (the deferred
  unlock also runs when it panics), and the flush of the dispatcher takes the same
  mutex.  So a callback never runs inside the flush, and one that read
  \<^verbatim>\<open>RemoteDescription()\<close> as \<^verbatim>\<open>nil\<close> has appended its candidate before the flush
  starts: for the buffer and for what is signalled it is the same as if the callback
  had run as one step at the moment it read the remote description.  The callback is
  modelled as that one step.
\<close>

definition OnICECandidate ::
  "'c engine \<Rightarrow> 'c option \<Rightarrow> 'c PeerConnectionChannel \<Rightarrow> ('c PeerConnectionChannel, 'c PeerConnectionChannel) run"
where
  "OnICECandidate E c pc =
     (case c of
        None \<Rightarrow> Ok pc
      | Some c \<Rightarrow>
          (let pc1 = emit Lock pc
           in case RemoteDescription pc1 of
                None \<Rightarrow> Ok (emit Unlock (pc1\<lparr>pendingCandidates := pendingCandidates pc1 @ [c]\<rparr>))
              | Some desc \<Rightarrow>
                  (case signalCandidate E c pc1 of
                     Panic p \<Rightarrow> Panic (emit Unlock p)
                   | Ok pc2 \<Rightarrow> Ok (emit Unlock pc2))))"

text \<open>The loop of lines 247 to 252 over \<^verbatim>\<open>pc.pendingCandidates\<close>.\<close>

fun flushPending ::
  "'c engine \<Rightarrow> 'c list \<Rightarrow> 'c PeerConnectionChannel \<Rightarrow> ('c PeerConnectionChannel, 'c PeerConnectionChannel) run"
where
  "flushPending E [] pc = Ok pc"
| "flushPending E (c # cs) pc = bind (signalCandidate E c pc) (flushPending E cs)"

text \<open>
  The statements of the \<^verbatim>\<open>sdpChan\<close> case of \<^verbatim>\<open>handleSignalingMessage\<close>, one
  definition each: line 233, line 237, line 241, line 242 and lines 246 to 253.  An
  error from the engine or from \<^verbatim>\<open>pc.signalCandidate\<close> is followed by
  \<^verbatim>\<open>panic\<close>.  The two \<^verbatim>\<open>slog.Info\<close> calls of the function are left out.
\<close>

definition applyRemoteDescription ::
  "'c engine \<Rightarrow> SessionDescription \<Rightarrow> 'c PeerConnectionChannel \<Rightarrow> ('c PeerConnectionChannel, 'c PeerConnectionChannel) run"
where
  "applyRemoteDescription E sdp pc =
     (let pc' = emit (SetRemoteDescription sdp) pc
      in if setRemoteDescriptionOk E sdp then Ok (pc'\<lparr>RemoteDescription := Some sdp\<rparr>) else Panic pc')"

definition requestAnswer ::
  "'c engine \<Rightarrow> 'c PeerConnectionChannel \<Rightarrow> ('c PeerConnectionChannel, SessionDescription \<times> 'c PeerConnectionChannel) run"
where
  "requestAnswer E pc =
     (let pc' = emit CreateAnswer pc
      in case createAnswer E (RemoteDescription pc) of
           None \<Rightarrow> Panic pc'
         | Some answer \<Rightarrow> Ok (answer, pc'))"

definition publishAnswer ::
  "SessionDescription \<Rightarrow> 'c PeerConnectionChannel \<Rightarrow> ('c PeerConnectionChannel, 'c PeerConnectionChannel) run"
where
  "publishAnswer answer pc = Ok (emit (SendReply answer) pc)"

definition applyLocalDescription ::
  "'c engine \<Rightarrow> SessionDescription \<Rightarrow> 'c PeerConnectionChannel \<Rightarrow> ('c PeerConnectionChannel, 'c PeerConnectionChannel) run"
where
  "applyLocalDescription E answer pc =
     (let pc' = emit (SetLocalDescription answer) pc
      in if setLocalDescriptionOk E answer then Ok pc' else Panic pc')"

definition flushUnderLock ::
  "'c engine \<Rightarrow> 'c PeerConnectionChannel \<Rightarrow> ('c PeerConnectionChannel, 'c PeerConnectionChannel) run"
where
  "flushUnderLock E pc =
     bind (flushPending E (pendingCandidates pc) (emit Lock pc)) (\<lambda>pc'. Ok (emit Unlock pc'))"

text \<open>The \<^verbatim>\<open>sdpChan\<close> case, lines 231 to 253, and the \<^verbatim>\<open>candidateChan\<close> case.\<close>

definition handleSdp ::
  "'c engine \<Rightarrow> SessionDescription \<Rightarrow> 'c PeerConnectionChannel \<Rightarrow> ('c PeerConnectionChannel, 'c PeerConnectionChannel) run"
where
  "handleSdp E sdp pc =
     bind (applyRemoteDescription E sdp pc) (\<lambda>pc.
     bind (requestAnswer E pc) (\<lambda>(answer, pc).
     bind (publishAnswer answer pc) (\<lambda>pc.
     bind (applyLocalDescription E answer pc) (\<lambda>pc.
     flushUnderLock E pc))))"

definition handleCandidate ::
  "'c engine \<Rightarrow> ICECandidateInit \<Rightarrow> 'c PeerConnectionChannel \<Rightarrow> ('c PeerConnectionChannel, 'c PeerConnectionChannel) run"
where
  "handleCandidate E candidate pc =
     (let pc' = emit (AddICECandidate candidate) pc
      in if addICECandidateOk E candidate then Ok pc' else Panic pc')"

text \<open>
  The loop of \<^verbatim>\<open>handleSignalingMessage\<close> over the messages its \<^verbatim>\<open>select\<close> receives,
  in the order it receives them.
\<close>

datatype signaling_message = FromSdpChan SessionDescription | FromCandidateChan ICECandidateInit

fun handleSignalingMessage ::
  "'c engine \<Rightarrow> signaling_message list \<Rightarrow> 'c PeerConnectionChannel \<Rightarrow> ('c PeerConnectionChannel, 'c PeerConnectionChannel) run"
where
  "handleSignalingMessage E [] pc = Ok pc"
| "handleSignalingMessage E (FromSdpChan sdp # ms) pc =
     bind (handleSdp E sdp pc) (handleSignalingMessage E ms)"
| "handleSignalingMessage E (FromCandidateChan candidate # ms) pc =
     bind (handleCandidate E candidate pc) (handleSignalingMessage E ms)"

text \<open>
  One negotiation together with the callback: the engine reports the candidates
  \<open>cs0\<close> before the dispatcher handles the offer, \<open>cs1\<close> to \<open>cs4\<close> between its
  statements (after lines 233, 237, 241 and 242), and \<open>cs5\<close> after the flush.  Every
  interleaving of the callback with one pass through the \<^verbatim>\<open>sdpChan\<close> case has this
  form, since no callback can run between \<^verbatim>\<open>Lock\<close> and \<^verbatim>\<open>Unlock\<close> of the flush.
\<close>

fun discovered ::
  "'c engine \<Rightarrow> 'c list \<Rightarrow> 'c PeerConnectionChannel \<Rightarrow> ('c PeerConnectionChannel, 'c PeerConnectionChannel) run"
where
  "discovered E [] pc = Ok pc"
| "discovered E (c # cs) pc = bind (OnICECandidate E (Some c) pc) (discovered E cs)"

definition negotiation ::
  "'c engine \<Rightarrow> 'c list \<Rightarrow> SessionDescription \<Rightarrow> 'c list \<Rightarrow> 'c list \<Rightarrow> 'c list \<Rightarrow> 'c list \<Rightarrow> 'c list
   \<Rightarrow> 'c PeerConnectionChannel \<Rightarrow> ('c PeerConnectionChannel, 'c PeerConnectionChannel) run"
where
  "negotiation E cs0 sdp cs1 cs2 cs3 cs4 cs5 pc =
     bind (discovered E cs0 pc) (\<lambda>pc.
     bind (applyRemoteDescription E sdp pc) (\<lambda>pc.
     bind (discovered E cs1 pc) (\<lambda>pc.
     bind (requestAnswer E pc) (\<lambda>(answer, pc).
     bind (discovered E cs2 pc) (\<lambda>pc.
     bind (publishAnswer answer pc) (\<lambda>pc.
     bind (discovered E cs3 pc) (\<lambda>pc.
     bind (applyLocalDescription E answer pc) (\<lambda>pc.
     bind (discovered E cs4 pc) (\<lambda>pc.
     bind (flushUnderLock E pc) (\<lambda>pc.
     discovered E cs5 pc))))))))))"

text \<open>
  The candidates handed to \<^verbatim>\<open>pc.signalCandidate\<close>, in call order; the effects of
  callbacks that queue their candidate, and of callbacks that signal it.
\<close>

fun signalled :: "pc_effect list \<Rightarrow> ICECandidateInit list" where
  "signalled [] = []"
| "signalled (SignalCandidate c # es) = c # signalled es"
| "signalled (_ # es) = signalled es"

definition queued :: "'c list \<Rightarrow> pc_effect list" where
  "queued cs = concat (map (\<lambda>c. [Lock, Unlock]) cs)"

definition immediate :: "'c engine \<Rightarrow> 'c list \<Rightarrow> pc_effect list" where
  "immediate E cs = concat (map (\<lambda>c. [Lock, SignalCandidate (ToJSON E c), Unlock]) cs)"

text \<open>An example engine that accepts everything, and two channel states.\<close>

definition exampleOffer :: SessionDescription where
  "exampleOffer = \<lparr>Type = SDPTypeOffer, SDP = ''v=0 offer''\<rparr>"

definition exampleEngine :: "string engine" where
  "exampleEngine =
     \<lparr>setRemoteDescriptionOk = (\<lambda>_. True),
      createAnswer = (\<lambda>d. case d of None \<Rightarrow> None | Some _ \<Rightarrow> Some exampleAnswer),
      setLocalDescriptionOk = (\<lambda>_. True),
      addICECandidateOk = (\<lambda>_. True),
      ToJSON = (\<lambda>c. \<lparr>Candidate = c, SDPMid = Some [], SDPMLineIndex = Some 0\<rparr>),
      signalCandidateOk = (\<lambda>_. True)\<rparr>"

definition newChannel :: "string PeerConnectionChannel" where
  "newChannel = \<lparr>RemoteDescription = None, pendingCandidates = [], effects = []\<rparr>"

definition waitingChannel :: "string PeerConnectionChannel" where
  "waitingChannel = \<lparr>RemoteDescription = None, pendingCandidates = [''c1''], effects = []\<rparr>"


section \<open>The frame assembler\<close>

text \<open>
  The decoder is reached through the C functions \<^verbatim>\<open>init_decoder\<close>,
  \<^verbatim>\<open>decode_frame\<close> and \<^verbatim>\<open>vpx_codec_get_frame\<close>, all on one codec context.  The
  context is represented by the calls made on it so far, and the library by the answers
  it gives, which may depend on that history: the return code of a call, and the images
  \<^verbatim>\<open>vpx_codec_get_frame\<close> hands out, one per call, with a fresh iterator after the
  history given.
\<close>

datatype dcall = InitDecoder nat nat | DecodeFrame "byte list" | GetFrame

record vpx_image =
  d_w :: nat
  d_h :: nat
  planes :: "byte list"

text \<open>\<^verbatim>\<open>gocv.Mat\<close> of type \<^verbatim>\<open>CV8UC3\<close>, after \<^verbatim>\<open>copy_frame_to_mat\<close> filled it.\<close>

record Mat =
  rows :: nat
  cols :: nat
  pixels :: "byte list"

text \<open>\<^verbatim>\<open>codecs.VP8Packet\<close> after \<^verbatim>\<open>Unmarshal\<close>: the start bit and the payload.\<close>

record VP8Packet =
  vp8_S :: byte
  vp8_Payload :: "byte list"

text \<open>
  The collaborators of both ingestion paths: the decoder, \<^verbatim>\<open>gocv\<close> (whether a new
  \<^verbatim>\<open>Mat\<close> of the given rows and columns is empty, whether \<^verbatim>\<open>DataPtrUint8\<close> fails,
  whether \<^verbatim>\<open>IMWrite\<close> of file number \<open>n\<close> succeeds), the colour conversion and the
  VP8 depacketizer (\<open>None\<close>: \<^verbatim>\<open>Unmarshal\<close> returns an error).
\<close>

record media_lib =
  init_decoder :: "dcall list \<Rightarrow> nat \<Rightarrow> nat \<Rightarrow> int"
  decode_frame :: "dcall list \<Rightarrow> byte list \<Rightarrow> int"
  decoded_frames :: "dcall list \<Rightarrow> vpx_image list"
  mat_empty :: "nat \<Rightarrow> nat \<Rightarrow> bool"
  data_ptr_err :: "nat \<Rightarrow> nat \<Rightarrow> bool"
  copy_frame_to_mat :: "vpx_image \<Rightarrow> nat \<Rightarrow> nat \<Rightarrow> byte list"
  imwrite_ok :: "nat \<Rightarrow> Mat \<Rightarrow> bool"
  Unmarshal :: "byte list \<Rightarrow> VP8Packet option"

datatype go_panic = IndexOutOfRange | UnmarshalFailed

subsection \<open>The buffered path: \<^verbatim>\<open>WebmSaver.PushVP8\<close>\<close>

record WebmSaver =
  codecCtx :: "dcall list"
  codecCreated :: bool
  imgChan :: "Mat list"
  saverLog :: "log_entry list"

text \<open>\<^verbatim>\<open>newWebmSaver\<close>; the sample builder it creates is not part of the state.\<close>

definition newWebmSaver :: WebmSaver where
  "newWebmSaver = \<lparr>codecCtx = [], codecCreated = False, imgChan = [], saverLog = []\<rparr>"

text \<open>\<^verbatim>\<open>InitWriter\<close>: \<^verbatim>\<open>codecCreated\<close> is set whether or not the decoder accepted.\<close>

definition InitWriter :: "media_lib \<Rightarrow> nat \<Rightarrow> nat \<Rightarrow> WebmSaver \<Rightarrow> WebmSaver" where
  "InitWriter L width height s =
     (let errCode = init_decoder L (codecCtx s) width height;
          s1 = s\<lparr>codecCtx := codecCtx s @ [InitDecoder width height]\<rparr>;
          s2 = (if errCode \<noteq> 0
                then s1\<lparr>saverLog := saverLog s1 @ [Error ''failed to initialize decoder'']\<rparr>
                else s1)
      in s2\<lparr>codecCreated := True\<rparr>)"

text \<open>
  Lines 56 to 61, for a sample that is long enough.  \<^verbatim>\<open>uint\<close> is taken as 64 bits
  wide; the value read has 32 significant bits, so a 32-bit \<^verbatim>\<open>uint\<close> gives the same.
\<close>

definition videoKeyframe :: "byte list \<Rightarrow> bool" where
  "videoKeyframe Data = (Data ! 0 AND 1 = 0)"

definition headerRaw :: "byte list \<Rightarrow> 64 word" where
  "headerRaw Data =
     ucast (Data ! 6) OR push_bit 8 (ucast (Data ! 7)) OR push_bit 16 (ucast (Data ! 8))
       OR push_bit 24 (ucast (Data ! 9))"

definition frameWidth :: "byte list \<Rightarrow> nat" where
  "frameWidth Data = unat (headerRaw Data AND 0x3FFF)"

definition frameHeight :: "byte list \<Rightarrow> nat" where
  "frameHeight Data = unat (drop_bit 16 (headerRaw Data) AND 0x3FFF)"

text \<open>Lines 68 to 101: submit the sample, fetch one image, convert it and send it.\<close>

definition decodeAndForward :: "media_lib \<Rightarrow> byte list \<Rightarrow> WebmSaver \<Rightarrow> WebmSaver" where
  "decodeAndForward L Data s =
     (let codecError = decode_frame L (codecCtx s) Data;
          s1 = s\<lparr>codecCtx := codecCtx s @ [DecodeFrame Data]\<rparr>
      in if codecError \<noteq> 0 then s1\<lparr>saverLog := saverLog s1 @ [Error ''Decode error'']\<rparr>
         else
           (let s2 = s1\<lparr>codecCtx := codecCtx s1 @ [GetFrame]\<rparr>
            in case decoded_frames L (codecCtx s1) of
                 [] \<Rightarrow> s2\<lparr>saverLog := saverLog s2 @ [Error ''Failed to get decoded frame'']\<rparr>
               | img # _ \<Rightarrow>
                   (let actualWidth = d_w img; actualHeight = d_h img
                    in if mat_empty L actualHeight actualWidth
                       then s2\<lparr>saverLog := saverLog s2 @ [Error ''Failed to create Mat'']\<rparr>
                       else if data_ptr_err L actualHeight actualWidth
                       then s2\<lparr>saverLog := saverLog s2 @ [Error ''Failed to get Mat data pointer'']\<rparr>
                       else s2\<lparr>imgChan := imgChan s2 @
                              [\<lparr>rows = actualHeight, cols = actualWidth,
                                pixels = copy_frame_to_mat L img actualWidth actualHeight\<rparr>]\<rparr>)))"

text \<open>
  The body of the loop of \<^verbatim>\<open>PushVP8\<close> for one popped sample.  Indexing a slice out of
  range panics: \<^verbatim>\<open>Data[0]\<close> on an empty sample, \<^verbatim>\<open>Data[6]\<close> to \<^verbatim>\<open>Data[9]\<close> on a
  keyframe shorter than ten bytes.
\<close>

definition processSample ::
  "media_lib \<Rightarrow> byte list \<Rightarrow> WebmSaver \<Rightarrow> (go_panic \<times> WebmSaver, WebmSaver) run"
where
  "processSample L Data s =
     (if Data = [] then Panic (IndexOutOfRange, s)
      else if videoKeyframe Data then
        (if length Data < 10 then Panic (IndexOutOfRange, s)
         else
           (let width = frameWidth Data; height = frameHeight Data;
                s1 = (if \<not> codecCreated s then InitWriter L width height s else s)
            in Ok (decodeAndForward L Data s1)))
      else Ok (decodeAndForward L Data s))"

text \<open>
  \<^verbatim>\<open>PushVP8\<close>.  The sample builder is the library's: its \<^verbatim>\<open>Push\<close> and \<^verbatim>\<open>Pop\<close> are
  represented by \<open>popped\<close>, the samples the calls of \<^verbatim>\<open>Pop\<close> return after this push
  before the first \<^verbatim>\<open>nil\<close>.
\<close>

fun PushVP8 ::
  "media_lib \<Rightarrow> byte list list \<Rightarrow> WebmSaver \<Rightarrow> (go_panic \<times> WebmSaver, WebmSaver) run"
where
  "PushVP8 L [] s = Ok s"
| "PushVP8 L (Data # popped) s = bind (processSample L Data s) (PushVP8 L popped)"

subsection \<open>The direct path: the \<^verbatim>\<open>OnTrack\<close> callback\<close>

text \<open>What \<^verbatim>\<open>track.ReadRTP\<close> returns: an error, or a packet.\<close>

record rtp_Packet =
  SequenceNumber :: "16 word"
  Marker :: bool
  Payload :: "byte list"

datatype rtp_read = ReadError | Read rtp_Packet

text \<open>
  The local variables of the callback.  \<^verbatim>\<open>currentFrame\<close> is \<open>None\<close> when the slice
  is \<^verbatim>\<open>nil\<close>: it starts as the empty, non-nil slice.  A JPEG file is represented by
  the number in its name and the image written.
\<close>

record track_state =
  codec :: "dcall list"
  currentFrame :: "byte list option"
  seenKeyFrame :: bool
  frameCount :: nat
  files :: "(nat \<times> Mat) list"
  trackLog :: "log_entry list"

text \<open>The inner loop, lines 350 to 385, over the images the decoder hands out.\<close>

fun saveFrames :: "media_lib \<Rightarrow> vpx_image list \<Rightarrow> track_state \<Rightarrow> track_state" where
  "saveFrames L [] t = t"
| "saveFrames L (img # imgs) t =
     (let t1 = t\<lparr>trackLog := trackLog t @ [Info ''Retrieved frame'']\<rparr>
      in if mat_empty L (d_h img) (d_w img)
         then saveFrames L imgs (t1\<lparr>trackLog := trackLog t1 @ [Error ''Failed to create Mat'']\<rparr>)
         else if data_ptr_err L (d_h img) (d_w img)
         then saveFrames L imgs
                (t1\<lparr>trackLog := trackLog t1 @ [Error ''Failed to get Mat data pointer'']\<rparr>)
         else
           (let goImg = \<lparr>rows = d_h img, cols = d_w img,
                         pixels = copy_frame_to_mat L img (d_w img) (d_h img)\<rparr>;
                t2 = (if imwrite_ok L (frameCount t1) goImg
                      then t1\<lparr>files := files t1 @ [(frameCount t1, goImg)],
                              trackLog := trackLog t1 @ [Info ''Saved frame'']\<rparr>
                      else t1\<lparr>trackLog := trackLog t1 @ [Error ''Failed to write image'']\<rparr>)
            in saveFrames L imgs (t2\<lparr>frameCount := frameCount t2 + 1\<rparr>)))"

text \<open>Lines 340 to 386, once a packet with the marker completed \<^verbatim>\<open>currentFrame\<close>.\<close>

definition decodeCurrentFrame :: "media_lib \<Rightarrow> byte list \<Rightarrow> track_state \<Rightarrow> track_state" where
  "decodeCurrentFrame L frame t =
     (let codecError = decode_frame L (codec t) frame;
          t1 = t\<lparr>codec := codec t @ [DecodeFrame frame]\<rparr>
      in if codecError \<noteq> 0
         then t1\<lparr>trackLog := trackLog t1 @ [Error ''Failed to decode frame'']\<rparr>
         else
           (let imgs = decoded_frames L (codec t1);
                t2 = t1\<lparr>codec := codec t1 @ replicate (Suc (length imgs)) GetFrame,
                        trackLog := trackLog t1 @ [Info ''Current frame size'']\<rparr>;
                t3 = saveFrames L imgs t2
            in t3\<lparr>currentFrame := None\<rparr>))"

text \<open>
  The read loop, lines 314 to 387, over the results of \<^verbatim>\<open>ReadRTP\<close>.  The list is a
  finite prefix of what the track delivers: when it is used up the callback is waiting
  in \<^verbatim>\<open>ReadRTP\<close>.
\<close>

fun readLoop ::
  "media_lib \<Rightarrow> rtp_read list \<Rightarrow> track_state \<Rightarrow> (go_panic \<times> track_state, track_state) run"
where
  "readLoop L [] t = Ok t"
| "readLoop L (ReadError # rest) t =
     Ok (t\<lparr>trackLog := trackLog t @ [Stdout ''Error reading RTP'']\<rparr>)"
| "readLoop L (Read packet # rest) t =
     (case Unmarshal L (Payload packet) of
        None \<Rightarrow> Panic (UnmarshalFailed, t)
      | Some vp8Packet \<Rightarrow>
          (if vp8_Payload vp8Packet = [] then Panic (IndexOutOfRange, t)
           else
             (let isKeyFrame = vp8_Payload vp8Packet ! 0 AND 1
              in if \<not> seenKeyFrame t \<and> isKeyFrame = 1 then readLoop L rest t
                 else if currentFrame t = None \<and> vp8_S vp8Packet \<noteq> 1 then readLoop L rest t
                 else
                   (let frame = (case currentFrame t of None \<Rightarrow> [] | Some b \<Rightarrow> b)
                                  @ vp8_Payload vp8Packet;
                        t1 = t\<lparr>seenKeyFrame := True, currentFrame := Some frame\<rparr>
                    in if \<not> Marker packet then readLoop L rest t1
                       else if length frame = 0 then readLoop L rest t1
                       else readLoop L rest (decodeCurrentFrame L frame t1)))))"

text \<open>The callback from its first statement: the decoder is created for 640 by 480.\<close>

definition OnTrack ::
  "media_lib \<Rightarrow> rtp_read list \<Rightarrow> (go_panic \<times> track_state, track_state) run"
where
  "OnTrack L reads =
     (let t0 = \<lparr>codec = [InitDecoder 640 480], currentFrame = Some [], seenKeyFrame = False,
                frameCount = 0, files = [],
                trackLog = [Info ''PeerConnectionChannel: received track'']\<rparr>
      in if init_decoder L [] 640 480 \<noteq> 0
         then Ok (t0\<lparr>trackLog := trackLog t0 @ [Stdout ''Failed to initialize decoder'']\<rparr>)
         else readLoop L reads t0)"

text \<open>The sample bytes handed to \<^verbatim>\<open>decode_frame\<close>, and the geometries handed to
  \<^verbatim>\<open>init_decoder\<close>, in call order.\<close>

fun submitted :: "dcall list \<Rightarrow> byte list list" where
  "submitted [] = []"
| "submitted (DecodeFrame Data # cs) = Data # submitted cs"
| "submitted (_ # cs) = submitted cs"

fun initialized :: "dcall list \<Rightarrow> (nat \<times> nat) list" where
  "initialized [] = []"
| "initialized (InitDecoder w h # cs) = (w, h) # initialized cs"
| "initialized (_ # cs) = initialized cs"

subsection \<open>Observations on a run\<close>

text \<open>The state a run ends in, whether it returned or panicked.\<close>

definition finalState :: "('p \<times> 's, 's) run \<Rightarrow> 's" where
  "finalState r = (case r of Panic (p, s) \<Rightarrow> s | Ok s \<Rightarrow> s)"




subsection \<open>Frames of a packet stream\<close>






subsection \<open>Example input\<close>

text \<open>
  An example library, used to run both paths on concrete input.  Its decoder rejects
  a sample that contains the byte \<open>0xFF\<close>; the second byte of an accepted sample
  says which images it yields (0: none, 2: two, 3: one of width 0 followed by two,
  otherwise one).  A \<^verbatim>\<open>Mat\<close> without rows or columns is empty.  Its depacketizer
  reads a one-byte payload descriptor whose bit \<open>0x10\<close> is the start bit.
\<close>

definition exampleImage :: "byte list \<Rightarrow> vpx_image" where
  "exampleImage Data = \<lparr>d_w = 2, d_h = 1, planes = take 6 Data\<rparr>"

definition blankImage :: vpx_image where
  "blankImage = \<lparr>d_w = 0, d_h = 1, planes = []\<rparr>"

definition exampleFrames :: "dcall list \<Rightarrow> vpx_image list" where
  "exampleFrames h =
     (case rev h of
        DecodeFrame Data # _ \<Rightarrow>
          (if length Data < 2 then [exampleImage Data]
           else if Data ! 1 = 0 then []
           else if Data ! 1 = 2 then [exampleImage Data, exampleImage (rev Data)]
           else if Data ! 1 = 3
           then [blankImage, exampleImage Data, exampleImage (rev Data)]
           else [exampleImage Data])
      | _ \<Rightarrow> [])"

definition exampleUnmarshal :: "byte list \<Rightarrow> VP8Packet option" where
  "exampleUnmarshal p =
     (case p of
        descriptor # b # rest \<Rightarrow>
          Some \<lparr>vp8_S = drop_bit 4 descriptor AND 1, vp8_Payload = b # rest\<rparr>
      | _ \<Rightarrow> None)"

definition exampleLib :: media_lib where
  "exampleLib =
     \<lparr>init_decoder = (\<lambda>h w hh. 0),
      decode_frame = (\<lambda>h Data. if 0xFF \<in> set Data then 1 else 0),
      decoded_frames = exampleFrames,
      mat_empty = (\<lambda>r c. r = 0 \<or> c = 0),
      data_ptr_err = (\<lambda>r c. False),
      copy_frame_to_mat = (\<lambda>img w h. planes img),
      imwrite_ok = (\<lambda>n m. True),
      Unmarshal = exampleUnmarshal\<rparr>"



text \<open>A keyframe sample: frame tag, start code, then 640 and 480 in little-endian order.\<close>

definition keyframe640x480 :: "byte list" where
  "keyframe640x480 = [0x10, 0x02, 0x00, 0x9D, 0x01, 0x2A, 0x80, 0x02, 0xE0, 0x01]"


text \<open>A keyframe sample the example decoder rejects.\<close>

definition corruptKeyframe :: "byte list" where
  "corruptKeyframe = [0x10, 0xFF, 0x00, 0x9D, 0x01, 0x2A, 0x80, 0x02, 0xE0, 0x01]"

text \<open>A frame that travels in one packet: start bit set, marker set.\<close>

definition singlePacket :: "16 word \<Rightarrow> byte list \<Rightarrow> rtp_Packet" where
  "singlePacket n Data = \<lparr>SequenceNumber = n, Marker = True, Payload = 0x10 # Data\<rparr>"


section \<open>Properties of the signaling session\<close>

lemma strings_Replace1_first:
  "old \<noteq> [] \<Longrightarrow> prefix old (drop i s) \<Longrightarrow> (\<forall>j<i. \<not> prefix old (drop j s)) \<Longrightarrow>
   strings_Replace1 s old new = take i s @ new @ drop (i + length old) s"
proof (induction s arbitrary: i)
  case Nil
  then show ?case by simp
next
  case (Cons c cs)
  show ?case
  proof (cases i)
    case 0
    with Cons.prems show ?thesis by simp
  next
    case (Suc k)
    have here: "\<not> prefix old (c # cs)"
      using Cons.prems(3) Suc by (metis drop0 zero_less_Suc)
    have later: "\<forall>j<k. \<not> prefix old (drop j cs)"
    proof (intro allI impI)
      fix j assume "j < k"
      then have "Suc j < i" using Suc by simp
      then have "\<not> prefix old (drop (Suc j) (c # cs))" using Cons.prems(3) by blast
      then show "\<not> prefix old (drop j cs)" by simp
    qed
    have "prefix old (drop k cs)" using Cons.prems(2) Suc by simp
    then have "strings_Replace1 cs old new = take k cs @ new @ drop (k + length old) cs"
      using Cons.IH [OF Cons.prems(1) _ later] by blast
    with here Suc show ?thesis by simp
  qed
qed

lemma strings_Replace1_absent:
  "old \<noteq> [] \<Longrightarrow> (\<forall>j. \<not> prefix old (drop j s)) \<Longrightarrow> strings_Replace1 s old new = s"
proof (induction s)
  case Nil
  then show ?case by simp
next
  case (Cons c cs)
  have here: "\<not> prefix old (c # cs)"
    using Cons.prems(2) by (metis drop0)
  have "\<forall>j. \<not> prefix old (drop j cs)"
  proof
    fix j
    have "\<not> prefix old (drop (Suc j) (c # cs))" using Cons.prems(2) by blast
    then show "\<not> prefix old (drop j cs)" by simp
  qed
  with Cons.IH Cons.prems(1) have "strings_Replace1 cs old new = cs" by blast
  with here show ?case by simp
qed

lemma relayCandidates_written: "written (relayCandidates J msgs s) = written s"
  by (induction msgs arbitrary: s) (auto split: option.splits)

lemma relayCandidates_sdpChan: "sdpChan (relayCandidates J msgs s) = sdpChan s"
  by (induction msgs arbitrary: s) (auto split: option.splits)

lemma relayCandidates_status: "status (relayCandidates J msgs s) = BlockedOnRecv"
  by (induction msgs arbitrary: s) (auto split: option.splits)

lemma relayCandidates_candidateChan:
  "candidateChan (relayCandidates J msgs s) =
     candidateChan s @ map toInit (List.map_filter (UnmarshalICECandidateJSON J) msgs)"
  by (induction msgs arbitrary: s) (auto simp: List.map_filter_simps toInit_def split: option.splits)

lemma Spin_offer_ok:
  assumes "toTextMessage J (composeActions streamId nameIn) = Some cfgMessage"
    and "UnmarshalSessionDescription J recvRaw = Some sdp"
  shows "Spin J True streamId nameIn (recvRaw # rest) (Some a) =
     sendAnswer J a rest
       \<lparr>written = [cfgMessage], sdpChan = [sdp], candidateChan = [],
        slog = [Info ''start spinning'', Info ''dial success'', Info ''send configure message'',
                Info ''recv sdp''],
        status = Returned\<rparr>"
  using assms by (simp add: Spin_def awaitOffer_def)

text \<open>
  Claim C2.  When the offer was decoded and the negotiator replied with answer \<open>a\<close>,
  the session writes exactly two messages: the configure directive and the encoding of
  \<open>patchAnswer a\<close>.  The patched answer keeps its type; where \<^verbatim>\<open>m=video 0\<close> first
  occurs at offset \<open>i\<close> of the body, the body sent is the old one with these nine
  characters replaced by \<^verbatim>\<open>m=video 9\<close> and everything before and after them (later
  occurrences included) unchanged; a body without an occurrence is sent as it is.
\<close>

theorem answer_video_port_patched:
  assumes "toTextMessage J (composeActions streamId nameIn) = Some cfgMessage"
    and "UnmarshalSessionDescription J recvRaw = Some sdp"
    and "Marshal J (Answer (patchAnswer a)) = Some payload"
  shows "written (Spin J True streamId nameIn (recvRaw # rest) (Some a)) = [cfgMessage, payload]
    \<and> Type (patchAnswer a) = Type a
    \<and> (\<forall>i. prefix ''m=video 0'' (drop i (SDP a)) \<and> (\<forall>j<i. \<not> prefix ''m=video 0'' (drop j (SDP a)))
          \<longrightarrow> SDP (patchAnswer a) = take i (SDP a) @ ''m=video 9'' @ drop (i + 9) (SDP a))
    \<and> ((\<forall>j. \<not> prefix ''m=video 0'' (drop j (SDP a))) \<longrightarrow> SDP (patchAnswer a) = SDP a)"
proof -
  have w: "written (Spin J True streamId nameIn (recvRaw # rest) (Some a)) = [cfgMessage, payload]"
    using assms(3) by (simp add: Spin_offer_ok [OF assms(1,2)] sendAnswer_def Let_def relayCandidates_written)
  have t: "Type (patchAnswer a) = Type a" by (simp add: patchAnswer_def)
  have len: "length ''m=video 0'' = 9" by simp
  have f: "\<forall>i. prefix ''m=video 0'' (drop i (SDP a)) \<and> (\<forall>j<i. \<not> prefix ''m=video 0'' (drop j (SDP a)))
          \<longrightarrow> SDP (patchAnswer a) = take i (SDP a) @ ''m=video 9'' @ drop (i + 9) (SDP a)"
  proof (intro allI impI, elim conjE)
    fix i
    assume p: "prefix ''m=video 0'' (drop i (SDP a))"
      and q: "\<forall>j<i. \<not> prefix ''m=video 0'' (drop j (SDP a))"
    have "strings_Replace1 (SDP a) ''m=video 0'' ''m=video 9'' =
        take i (SDP a) @ ''m=video 9'' @ drop (i + length ''m=video 0'') (SDP a)"
      by (rule strings_Replace1_first [OF _ p q]) simp
    then show "SDP (patchAnswer a) = take i (SDP a) @ ''m=video 9'' @ drop (i + 9) (SDP a)"
      unfolding len by (simp add: patchAnswer_def)
  qed
  have n: "(\<forall>j. \<not> prefix ''m=video 0'' (drop j (SDP a))) \<longrightarrow> SDP (patchAnswer a) = SDP a"
    using strings_Replace1_absent [of "''m=video 0''" "SDP a" "''m=video 9''"]
    by (simp add: patchAnswer_def)
  from w t f n show ?thesis by blast
qed

lemma ex_first: "prefix ''m=video 0'' (drop 4 (SDP exampleAnswer)) \<and>
    (\<forall>j<4. \<not> prefix ''m=video 0'' (drop j (SDP exampleAnswer)))"
  by (simp add: exampleAnswer_def less_Suc_eq numeral_Bit0 numeral_Bit1 eval_nat_numeral)

theorem answer_video_port_patched_witness:
  "toTextMessage exampleCodec (composeActions ''s1'' ''camera'') = Some ''configure''
   \<and> UnmarshalSessionDescription exampleCodec ''v=0 offer'' = Some \<lparr>Type = SDPTypeOffer, SDP = ''v=0 offer''\<rparr>
   \<and> Marshal exampleCodec (Answer (patchAnswer exampleAnswer)) = Some ''v=0 m=video 9 m=video 0''
   \<and> written (Spin exampleCodec True ''s1'' ''camera'' [''v=0 offer''] (Some exampleAnswer))
       = [''configure'', ''v=0 m=video 9 m=video 0'']
   \<and> SDP (patchAnswer exampleAnswer) = ''v=0 m=video 9 m=video 0''"
proof -
  have h1: "toTextMessage exampleCodec (composeActions ''s1'' ''camera'') = Some ''configure''"
    by (simp add: toTextMessage_def composeActions_def exampleCodec_def)
  have h2: "UnmarshalSessionDescription exampleCodec ''v=0 offer'' = Some \<lparr>Type = SDPTypeOffer, SDP = ''v=0 offer''\<rparr>"
    by (simp add: exampleCodec_def)
  have h3: "Marshal exampleCodec (Answer (patchAnswer exampleAnswer)) = Some ''v=0 m=video 9 m=video 0''"
    by (simp add: exampleCodec_def patchAnswer_def exampleAnswer_def)
  note t = answer_video_port_patched [OF h1 h2 h3, of "[]"]
  from t have "SDP (patchAnswer exampleAnswer) = take 4 (SDP exampleAnswer) @ ''m=video 9'' @ drop (4 + 9) (SDP exampleAnswer)"
    using ex_first by blast
  then have "SDP (patchAnswer exampleAnswer) = ''v=0 m=video 9 m=video 0''"
    by (simp add: exampleAnswer_def)
  with t h1 h2 h3 show ?thesis by blast
qed

text \<open>
  Claim C6.  If the first inbound message does not decode as a session description,
  \<^verbatim>\<open>Spin\<close> returns and nothing was sent on \<^verbatim>\<open>sdpChan\<close> or \<^verbatim>\<open>candidateChan\<close>.
  After the answer was sent, the relay loop never returns: the candidates delivered to
  the negotiator are exactly the inbound messages that decode, in order, so a message
  that fails to decode is skipped and the well-formed one after it is delivered.
\<close>

theorem decode_failure_policy:
  assumes cfg: "toTextMessage J (composeActions streamId nameIn) = Some cfgMessage"
  shows "(UnmarshalSessionDescription J recvRaw = None \<longrightarrow>
           (let r = Spin J True streamId nameIn (recvRaw # rest) reply
            in status r = Returned \<and> sdpChan r = [] \<and> candidateChan r = []))
    \<and> (UnmarshalSessionDescription J recvRaw = Some sdp \<longrightarrow>
           (let r = Spin J True streamId nameIn (recvRaw # msgs) (Some a)
            in status r = BlockedOnRecv \<and> sdpChan r = [sdp]
               \<and> candidateChan r = map toInit (List.map_filter (UnmarshalICECandidateJSON J) msgs)))
    \<and> (UnmarshalSessionDescription J recvRaw = Some sdp
         \<and> UnmarshalICECandidateJSON J bad = None \<and> UnmarshalICECandidateJSON J good = Some cj \<longrightarrow>
           (let r = Spin J True streamId nameIn (recvRaw # bad # good # rest) (Some a)
            in status r = BlockedOnRecv
               \<and> candidateChan r = toInit cj # map toInit (List.map_filter (UnmarshalICECandidateJSON J) rest)))"
proof -
  have fatal: "UnmarshalSessionDescription J recvRaw = None \<longrightarrow>
           (let r = Spin J True streamId nameIn (recvRaw # rest) reply
            in status r = Returned \<and> sdpChan r = [] \<and> candidateChan r = [])"
    using cfg by (simp add: Spin_def awaitOffer_def)
  have relay: "\<And>ms. UnmarshalSessionDescription J recvRaw = Some sdp \<Longrightarrow>
           (let r = Spin J True streamId nameIn (recvRaw # ms) (Some a)
            in status r = BlockedOnRecv \<and> sdpChan r = [sdp]
               \<and> candidateChan r = map toInit (List.map_filter (UnmarshalICECandidateJSON J) ms))"
    by (simp add: Spin_offer_ok [OF cfg] sendAnswer_def Let_def relayCandidates_status
        relayCandidates_sdpChan relayCandidates_candidateChan split: option.splits)
  have skip: "UnmarshalSessionDescription J recvRaw = Some sdp
         \<and> UnmarshalICECandidateJSON J bad = None \<and> UnmarshalICECandidateJSON J good = Some cj \<longrightarrow>
           (let r = Spin J True streamId nameIn (recvRaw # bad # good # rest) (Some a)
            in status r = BlockedOnRecv
               \<and> candidateChan r = toInit cj # map toInit (List.map_filter (UnmarshalICECandidateJSON J) rest))"
    using relay [of "bad # good # rest"] by (simp add: Let_def List.map_filter_simps)
  from fatal relay [of msgs] skip show ?thesis by blast
qed

theorem decode_failure_policy_witness:
  "(let r = Spin exampleCodec True ''s1'' ''camera'' [''garbage'', ''candidate:1''] None
    in status r = Returned \<and> sdpChan r = [] \<and> candidateChan r = [])
   \<and> (let r = Spin exampleCodec True ''s1'' ''camera''
                [''v=0 offer'', ''{not json'', ''candidate:2''] (Some exampleAnswer)
      in status r = BlockedOnRecv
         \<and> candidateChan r = [\<lparr>Candidate = ''candidate:2'', SDPMid = Some ''0'', SDPMLineIndex = Some 0\<rparr>])"
proof -
  have h1: "toTextMessage exampleCodec (composeActions ''s1'' ''camera'') = Some ''configure''"
    by (simp add: toTextMessage_def composeActions_def exampleCodec_def)
  have bad_offer: "UnmarshalSessionDescription exampleCodec ''garbage'' = None"
    by (simp add: exampleCodec_def)
  have good_offer: "UnmarshalSessionDescription exampleCodec ''v=0 offer'' = Some \<lparr>Type = SDPTypeOffer, SDP = ''v=0 offer''\<rparr>"
    by (simp add: exampleCodec_def)
  have bad: "UnmarshalICECandidateJSON exampleCodec ''{not json'' = None"
    by (simp add: exampleCodec_def)
  have good: "UnmarshalICECandidateJSON exampleCodec ''candidate:2'' =
      Some \<lparr>jCandidate = ''candidate:2'', jSDPMid = ''0'', jSDPMLineIndex = 0, jType = ''ice_candidate''\<rparr>"
    by (simp add: exampleCodec_def)
  from decode_failure_policy [OF h1, where recvRaw = "''garbage''" and rest = "[''candidate:1'']" and reply = None]
  have a: "(let r = Spin exampleCodec True ''s1'' ''camera'' [''garbage'', ''candidate:1''] None
    in status r = Returned \<and> sdpChan r = [] \<and> candidateChan r = [])"
    using bad_offer by blast
  from decode_failure_policy [OF h1, where recvRaw = "''v=0 offer''" and bad = "''{not json''"
      and good = "''candidate:2''" and rest = "[]" and a = exampleAnswer]
  have b: "(let r = Spin exampleCodec True ''s1'' ''camera''
                [''v=0 offer'', ''{not json'', ''candidate:2''] (Some exampleAnswer)
      in status r = BlockedOnRecv
         \<and> candidateChan r = [\<lparr>Candidate = ''candidate:2'', SDPMid = Some ''0'', SDPMLineIndex = Some 0\<rparr>])"
    using good_offer bad good by (simp add: Let_def toInit_def List.map_filter_simps)
  from a b show ?thesis by blast
qed

section \<open>Properties of the negotiator\<close>

lemma negotiation_sequential:
  "negotiation E [] sdp [] [] [] [] [] pc = handleSdp E sdp pc"
  by (simp add: negotiation_def handleSdp_def bind_def split: run.splits prod.splits)

lemma bind_Ok [simp]: "bind (Ok a) f = f a"
  by (simp add: bind_def)

lemma bind_Panic [simp]: "bind (Panic s) f = Panic s"
  by (simp add: bind_def)

lemma effects_emit [simp]: "effects (emit e pc) = effects pc @ [e]"
  and pending_emit [simp]: "pendingCandidates (emit e pc) = pendingCandidates pc"
  and remote_emit [simp]: "RemoteDescription (emit e pc) = RemoteDescription pc"
  by (simp_all add: emit_def)

lemma discovered_before:
  "RemoteDescription pc = None \<Longrightarrow>
   discovered E cs pc =
     Ok (pc\<lparr>pendingCandidates := pendingCandidates pc @ cs, effects := effects pc @ queued cs\<rparr>)"
proof (induction cs arbitrary: pc)
  case Nil
  then show ?case by (simp add: queued_def)
next
  case (Cons c cs)
  let ?pc = "emit Unlock ((emit Lock pc)\<lparr>pendingCandidates := pendingCandidates pc @ [c]\<rparr>)"
  have step: "OnICECandidate E (Some c) pc = Ok ?pc"
    using Cons.prems by (simp add: OnICECandidate_def)
  have "RemoteDescription ?pc = None" using Cons.prems by simp
  from Cons.IH [OF this] step show ?case
    by (simp add: queued_def emit_def)
qed

lemma discovered_after:
  "RemoteDescription pc = Some d \<Longrightarrow> \<forall>c\<in>set cs. signalCandidateOk E (ToJSON E c) \<Longrightarrow>
   discovered E cs pc = Ok (pc\<lparr>effects := effects pc @ immediate E cs\<rparr>)"
proof (induction cs arbitrary: pc)
  case Nil
  then show ?case by (simp add: immediate_def)
next
  case (Cons c cs)
  let ?pc = "emit Unlock (emit (SignalCandidate (ToJSON E c)) (emit Lock pc))"
  have step: "OnICECandidate E (Some c) pc = Ok ?pc"
    using Cons.prems by (simp add: OnICECandidate_def signalCandidate_def)
  have "RemoteDescription ?pc = Some d" using Cons.prems by simp
  from Cons.IH [OF this] Cons.prems(2) step show ?case
    by (simp add: immediate_def emit_def)
qed

lemma flushPending_ok:
  "\<forall>c\<in>set cs. signalCandidateOk E (ToJSON E c) \<Longrightarrow>
   flushPending E cs pc = Ok (pc\<lparr>effects := effects pc @ map (\<lambda>c. SignalCandidate (ToJSON E c)) cs\<rparr>)"
proof (induction cs arbitrary: pc)
  case Nil
  then show ?case by simp
next
  case (Cons c cs)
  then show ?case by (simp add: signalCandidate_def emit_def)
qed

lemma flushUnderLock_ok:
  "\<forall>c\<in>set (pendingCandidates pc). signalCandidateOk E (ToJSON E c) \<Longrightarrow>
   flushUnderLock E pc =
     Ok (pc\<lparr>effects := effects pc @ [Lock] @ map (\<lambda>c. SignalCandidate (ToJSON E c)) (pendingCandidates pc) @ [Unlock]\<rparr>)"
  by (simp add: flushUnderLock_def flushPending_ok emit_def)

lemma signalled_append [simp]: "signalled (xs @ ys) = signalled xs @ signalled ys"
  by (induction xs rule: signalled.induct) auto

lemma signalled_queued [simp]: "signalled (queued cs) = []"
  by (induction cs) (auto simp: queued_def)

lemma signalled_immediate [simp]: "signalled (immediate E cs) = map (ToJSON E) cs"
  by (induction cs) (auto simp: immediate_def)

lemma signalled_flush [simp]:
  "signalled (map (\<lambda>c. SignalCandidate (ToJSON E c)) cs) = map (ToJSON E) cs"
  by (induction cs) auto

text \<open>
  Claim C1.  Take a channel whose remote description is not yet set, and any
  interleaving of candidate discovery with the handling of one offer in which the
  engine and \<^verbatim>\<open>signalCandidate\<close> report no error.  Every candidate discovered before
  \<^verbatim>\<open>SetRemoteDescription\<close> (\<open>cs0\<close>) is appended to \<^verbatim>\<open>pendingCandidates\<close> and not
  signalled then; the flush happens after the remote description is applied, between
  \<^verbatim>\<open>Lock\<close> and \<^verbatim>\<open>Unlock\<close>, and signals the buffer in discovery order, each entry
  once; every candidate discovered after \<^verbatim>\<open>SetRemoteDescription\<close> (\<open>cs1\<close> to
  \<open>cs5\<close>) is signalled in its own callback and never enters the buffer.  So the
  candidates signalled are all the candidates discovered, each once.
\<close>

theorem pending_candidates_buffered_then_flushed:
  assumes fresh: "RemoteDescription pc = None"
    and remote: "setRemoteDescriptionOk E sdp"
    and ans: "createAnswer E (Some sdp) = Some a"
    and local: "setLocalDescriptionOk E a"
    and sig: "\<forall>c. signalCandidateOk E c"
  shows "negotiation E cs0 sdp cs1 cs2 cs3 cs4 cs5 pc =
      Ok (pc\<lparr>RemoteDescription := Some sdp,
             pendingCandidates := pendingCandidates pc @ cs0,
             effects := effects pc @ queued cs0 @ [SetRemoteDescription sdp] @ immediate E cs1
               @ [CreateAnswer] @ immediate E cs2 @ [SendReply a] @ immediate E cs3
               @ [SetLocalDescription a] @ immediate E cs4
               @ [Lock] @ map (\<lambda>c. SignalCandidate (ToJSON E c)) (pendingCandidates pc @ cs0) @ [Unlock]
               @ immediate E cs5\<rparr>)
    \<and> (\<forall>pc'. negotiation E cs0 sdp cs1 cs2 cs3 cs4 cs5 pc = Ok pc' \<longrightarrow>
          signalled (effects pc') = signalled (effects pc)
            @ map (ToJSON E) (cs1 @ cs2 @ cs3 @ cs4) @ map (ToJSON E) (pendingCandidates pc @ cs0)
            @ map (ToJSON E) cs5)"
proof -
  let ?p0 = "pc\<lparr>pendingCandidates := pendingCandidates pc @ cs0, effects := effects pc @ queued cs0\<rparr>"
  have s0: "discovered E cs0 pc = Ok ?p0" by (rule discovered_before [OF fresh])
  let ?p1 = "?p0\<lparr>RemoteDescription := Some sdp, effects := effects ?p0 @ [SetRemoteDescription sdp]\<rparr>"
  have s1: "applyRemoteDescription E sdp ?p0 = Ok ?p1"
    using remote by (simp add: applyRemoteDescription_def emit_def)
  have r1: "RemoteDescription ?p1 = Some sdp" by simp
  have oks: "\<And>cs. \<forall>c\<in>set cs. signalCandidateOk E (ToJSON E c)" using sig by simp
  let ?p2 = "?p1\<lparr>effects := effects ?p1 @ immediate E cs1\<rparr>"
  have s2: "discovered E cs1 ?p1 = Ok ?p2" by (rule discovered_after [OF r1 oks])
  let ?p3 = "?p2\<lparr>effects := effects ?p2 @ [CreateAnswer]\<rparr>"
  have s3: "requestAnswer E ?p2 = Ok (a, ?p3)"
    using ans by (simp add: requestAnswer_def emit_def)
  have r3: "RemoteDescription ?p3 = Some sdp" by simp
  let ?p4 = "?p3\<lparr>effects := effects ?p3 @ immediate E cs2\<rparr>"
  have s4: "discovered E cs2 ?p3 = Ok ?p4" by (rule discovered_after [OF r3 oks])
  let ?p5 = "?p4\<lparr>effects := effects ?p4 @ [SendReply a]\<rparr>"
  have s5: "publishAnswer a ?p4 = Ok ?p5" by (simp add: publishAnswer_def emit_def)
  have r5: "RemoteDescription ?p5 = Some sdp" by simp
  let ?p6 = "?p5\<lparr>effects := effects ?p5 @ immediate E cs3\<rparr>"
  have s6: "discovered E cs3 ?p5 = Ok ?p6" by (rule discovered_after [OF r5 oks])
  let ?p7 = "?p6\<lparr>effects := effects ?p6 @ [SetLocalDescription a]\<rparr>"
  have s7: "applyLocalDescription E a ?p6 = Ok ?p7"
    using local by (simp add: applyLocalDescription_def emit_def)
  have r7: "RemoteDescription ?p7 = Some sdp" by simp
  let ?p8 = "?p7\<lparr>effects := effects ?p7 @ immediate E cs4\<rparr>"
  have s8: "discovered E cs4 ?p7 = Ok ?p8" by (rule discovered_after [OF r7 oks])
  let ?p9 = "?p8\<lparr>effects := effects ?p8 @ [Lock]
      @ map (\<lambda>c. SignalCandidate (ToJSON E c)) (pendingCandidates ?p8) @ [Unlock]\<rparr>"
  have s9: "flushUnderLock E ?p8 = Ok ?p9" by (rule flushUnderLock_ok [OF oks])
  have r9: "RemoteDescription ?p9 = Some sdp" by simp
  let ?p10 = "?p9\<lparr>effects := effects ?p9 @ immediate E cs5\<rparr>"
  have s10: "discovered E cs5 ?p9 = Ok ?p10" by (rule discovered_after [OF r9 oks])
  have run: "negotiation E cs0 sdp cs1 cs2 cs3 cs4 cs5 pc = Ok ?p10"
    unfolding negotiation_def by (simp only: s0 s1 s2 s3 s4 s5 s6 s7 s8 s9 s10 bind_Ok prod.case)
  have shape: "?p10 = pc\<lparr>RemoteDescription := Some sdp,
             pendingCandidates := pendingCandidates pc @ cs0,
             effects := effects pc @ queued cs0 @ [SetRemoteDescription sdp] @ immediate E cs1
               @ [CreateAnswer] @ immediate E cs2 @ [SendReply a] @ immediate E cs3
               @ [SetLocalDescription a] @ immediate E cs4
               @ [Lock] @ map (\<lambda>c. SignalCandidate (ToJSON E c)) (pendingCandidates pc @ cs0) @ [Unlock]
               @ immediate E cs5\<rparr>"
    by simp
  have sigs: "signalled (effects ?p10) = signalled (effects pc)
            @ map (ToJSON E) (cs1 @ cs2 @ cs3 @ cs4) @ map (ToJSON E) (pendingCandidates pc @ cs0)
            @ map (ToJSON E) cs5"
    by simp
  from run shape sigs show ?thesis by (metis run.inject(2))
qed

theorem pending_candidates_buffered_then_flushed_witness:
  "negotiation exampleEngine [''c1'', ''c2''] exampleOffer [''c3''] [] [] [''c4''] [''c5''] newChannel =
     Ok \<lparr>RemoteDescription = Some exampleOffer,
         pendingCandidates = [''c1'', ''c2''],
         effects = [Lock, Unlock, Lock, Unlock, SetRemoteDescription exampleOffer,
           Lock, SignalCandidate (ToJSON exampleEngine ''c3''), Unlock,
           CreateAnswer, SendReply exampleAnswer, SetLocalDescription exampleAnswer,
           Lock, SignalCandidate (ToJSON exampleEngine ''c4''), Unlock,
           Lock, SignalCandidate (ToJSON exampleEngine ''c1''),
           SignalCandidate (ToJSON exampleEngine ''c2''), Unlock,
           Lock, SignalCandidate (ToJSON exampleEngine ''c5''), Unlock]\<rparr>"
proof -
  have h1: "RemoteDescription newChannel = None" by (simp add: newChannel_def)
  have h2: "setRemoteDescriptionOk exampleEngine exampleOffer" by (simp add: exampleEngine_def)
  have h3: "createAnswer exampleEngine (Some exampleOffer) = Some exampleAnswer"
    by (simp add: exampleEngine_def)
  have h4: "setLocalDescriptionOk exampleEngine exampleAnswer" by (simp add: exampleEngine_def)
  have h5: "\<forall>c. signalCandidateOk exampleEngine c" by (simp add: exampleEngine_def)
  from pending_candidates_buffered_then_flushed [OF h1 h2 h3 h4 h5,
      of "[''c1'', ''c2'']" "[''c3'']" "[]" "[]" "[''c4'']" "[''c5'']"]
  show ?thesis by (simp add: newChannel_def queued_def immediate_def)
qed

text \<open>
  Claim C5, as the code has it.  For a remote-description event on which no engine call
  fails, the dispatcher applies the remote description, requests an answer, publishes
  the answer on the reply channel, then applies it as the local description, and only
  then flushes the pending candidates under the lock.
\<close>

theorem remote_description_steps_in_order:
  assumes remote: "setRemoteDescriptionOk E sdp"
    and ans: "createAnswer E (Some sdp) = Some a"
    and local: "setLocalDescriptionOk E a"
    and sig: "\<forall>c\<in>set (pendingCandidates pc). signalCandidateOk E (ToJSON E c)"
  shows "handleSdp E sdp pc =
      Ok (pc\<lparr>RemoteDescription := Some sdp,
             effects := effects pc @ [SetRemoteDescription sdp, CreateAnswer, SendReply a,
               SetLocalDescription a, Lock]
               @ map (\<lambda>c. SignalCandidate (ToJSON E c)) (pendingCandidates pc) @ [Unlock]\<rparr>)"
proof -
  let ?p1 = "pc\<lparr>RemoteDescription := Some sdp, effects := effects pc @ [SetRemoteDescription sdp]\<rparr>"
  have s1: "applyRemoteDescription E sdp pc = Ok ?p1"
    using remote by (simp add: applyRemoteDescription_def emit_def)
  let ?p2 = "?p1\<lparr>effects := effects ?p1 @ [CreateAnswer]\<rparr>"
  have s2: "requestAnswer E ?p1 = Ok (a, ?p2)"
    using ans by (simp add: requestAnswer_def emit_def)
  let ?p3 = "?p2\<lparr>effects := effects ?p2 @ [SendReply a]\<rparr>"
  have s3: "publishAnswer a ?p2 = Ok ?p3" by (simp add: publishAnswer_def emit_def)
  let ?p4 = "?p3\<lparr>effects := effects ?p3 @ [SetLocalDescription a]\<rparr>"
  have s4: "applyLocalDescription E a ?p3 = Ok ?p4"
    using local by (simp add: applyLocalDescription_def emit_def)
  have "\<forall>c\<in>set (pendingCandidates ?p4). signalCandidateOk E (ToJSON E c)" using sig by simp
  note s5 = flushUnderLock_ok [OF this]
  have "handleSdp E sdp pc = flushUnderLock E ?p4"
    unfolding handleSdp_def by (simp only: s1 s2 s3 s4 bind_Ok prod.case)
  with s5 show ?thesis by simp
qed

theorem remote_description_steps_in_order_witness:
  "handleSdp exampleEngine exampleOffer waitingChannel =
     Ok \<lparr>RemoteDescription = Some exampleOffer, pendingCandidates = [''c1''],
         effects = [SetRemoteDescription exampleOffer, CreateAnswer, SendReply exampleAnswer,
           SetLocalDescription exampleAnswer, Lock,
           SignalCandidate (ToJSON exampleEngine ''c1''), Unlock]\<rparr>"
proof -
  have h1: "setRemoteDescriptionOk exampleEngine exampleOffer" by (simp add: exampleEngine_def)
  have h2: "createAnswer exampleEngine (Some exampleOffer) = Some exampleAnswer"
    by (simp add: exampleEngine_def)
  have h3: "setLocalDescriptionOk exampleEngine exampleAnswer" by (simp add: exampleEngine_def)
  have h4: "\<forall>c\<in>set (pendingCandidates waitingChannel).
      signalCandidateOk exampleEngine (ToJSON exampleEngine c)"
    by (simp add: exampleEngine_def)
  from remote_description_steps_in_order [OF h1 h2 h3 h4]
  show ?thesis by (simp add: waitingChannel_def)
qed

text \<open>
  The order "local description first, then publish" is not the order of the code.  On
  the example engine the run is not the one that order would give; and when the engine
  rejects the local description, the dispatcher panics with the answer already sent on
  the reply channel.
\<close>

theorem local_description_before_publish_counterexample:
  "handleSdp exampleEngine exampleOffer waitingChannel \<noteq>
     Ok \<lparr>RemoteDescription = Some exampleOffer, pendingCandidates = [''c1''],
         effects = [SetRemoteDescription exampleOffer, CreateAnswer,
           SetLocalDescription exampleAnswer, SendReply exampleAnswer, Lock,
           SignalCandidate (ToJSON exampleEngine ''c1''), Unlock]\<rparr>
   \<and> handleSdp (exampleEngine\<lparr>setLocalDescriptionOk := (\<lambda>d. False)\<rparr>) exampleOffer waitingChannel =
     Panic \<lparr>RemoteDescription = Some exampleOffer, pendingCandidates = [''c1''],
         effects = [SetRemoteDescription exampleOffer, CreateAnswer, SendReply exampleAnswer,
           SetLocalDescription exampleAnswer]\<rparr>"
  by (simp add: handleSdp_def applyRemoteDescription_def requestAnswer_def publishAnswer_def
      applyLocalDescription_def flushUnderLock_def signalCandidate_def emit_def
      exampleEngine_def waitingChannel_def)

section \<open>Properties of the frame assembler\<close>

subsection \<open>The keyframe header\<close>

lemma byte_lt: "unat (b :: byte) < 256"
  using unsigned_less [of b, where 'a = nat] by simp

lemma or_push_add:
  fixes x y :: nat
  assumes "x < 2 ^ n"
  shows "x OR push_bit n y = x + push_bit n y"
proof -
  have "x + push_bit n y = x OR push_bit n y"
  proof (rule disjunctive_add)
    fix k
    show "\<not> bit x k \<or> \<not> bit (push_bit n y) k"
    proof (cases "k < n")
      case True
      then show ?thesis by (simp add: bit_push_bit_iff)
    next
      case False
      then have "(2::nat) ^ n \<le> 2 ^ k" by (intro power_increasing) simp_all
      with assms have "x < 2 ^ k" by (rule less_le_trans)
      then have "\<not> bit x k" by (simp add: bit_iff_odd)
      then show ?thesis by simp
    qed
  qed
  then show ?thesis by simp
qed

lemma unat_ucast_byte: "unat (ucast (x :: byte) :: 64 word) = unat x"
proof -
  have "unat x < 2 ^ 64" using byte_lt [of x] by simp
  then show ?thesis by (simp add: unsigned_ucast_eq take_bit_nat_eq_self)
qed

lemma headerRaw_unat:
  "unat (headerRaw d) =
     unat (d ! 6) + 256 * unat (d ! 7) + 65536 * unat (d ! 8) + 16777216 * unat (d ! 9)"
proof -
  define a b c e where "a = unat (d ! 6)" and "b = unat (d ! 7)" and "c = unat (d ! 8)"
    and "e = unat (d ! 9)"
  have lt: "a < 256" "b < 256" "c < 256" "e < 256"
    unfolding a_def b_def c_def e_def by (rule byte_lt)+
  have sh: "\<And>n (x :: byte). n \<le> 24 \<Longrightarrow>
      unat (push_bit n (ucast x :: 64 word)) = push_bit n (unat x)"
  proof -
    fix n :: nat and x :: byte
    assume n: "n \<le> 24"
    have "unat x * 2 ^ n < 2 ^ 8 * 2 ^ n"
      using byte_lt [of x] by simp
    also have "\<dots> = (2::nat) ^ (8 + n)" by (simp add: power_add)
    also have "\<dots> \<le> 2 ^ 64" using n by (intro power_increasing) simp_all
    finally have "push_bit n (unat x) < 2 ^ 64" by (simp add: push_bit_eq_mult)
    then have "take_bit 64 (push_bit n (unat x)) = push_bit n (unat x)"
      by (rule take_bit_nat_eq_self)
    then show "unat (push_bit n (ucast x :: 64 word)) = push_bit n (unat x)"
      by (simp only: unsigned_push_bit_eq unat_ucast_byte len_num0 len_num1 len_bit0 len_bit1) simp
  qed
  have p8: "unat (push_bit 8 (ucast (d ! 7) :: 64 word)) = push_bit 8 b"
    unfolding b_def by (rule sh) simp
  have p16: "unat (push_bit 16 (ucast (d ! 8) :: 64 word)) = push_bit 16 c"
    unfolding c_def by (rule sh) simp
  have p24: "unat (push_bit 24 (ucast (d ! 9) :: 64 word)) = push_bit 24 e"
    unfolding e_def by (rule sh) simp
  have "unat (headerRaw d) = ((a OR push_bit 8 b) OR push_bit 16 c) OR push_bit 24 e"
    by (simp only: headerRaw_def unsigned_or_eq p8 p16 p24 unat_ucast_byte a_def or.assoc)
  also have "a OR push_bit 8 b = a + push_bit 8 b"
    using lt(1) by (intro or_push_add) simp
  also have "(a + push_bit 8 b) OR push_bit 16 c = (a + push_bit 8 b) + push_bit 16 c"
    using lt(1,2) by (intro or_push_add) (simp add: push_bit_eq_mult)
  also have "(a + push_bit 8 b + push_bit 16 c) OR push_bit 24 e = a + push_bit 8 b + push_bit 16 c + push_bit 24 e"
    using lt(1,2,3) by (intro or_push_add) (simp add: push_bit_eq_mult)
  finally show ?thesis
    by (simp add: push_bit_eq_mult a_def b_def c_def e_def)
qed

lemma frameWidth_eq:
  "frameWidth d =
     (unat (d ! 6) + 256 * unat (d ! 7) + 65536 * unat (d ! 8) + 16777216 * unat (d ! 9)) mod 2 ^ 14"
proof -
  have m: "(0x3FFF :: 64 word) = mask 14" by (simp add: mask_eq_exp_minus_1)
  have "frameWidth d = take_bit 14 (unat (headerRaw d))"
    unfolding frameWidth_def m by (simp add: unsigned_take_bit_eq flip: take_bit_eq_mask)
  then show ?thesis by (simp only: headerRaw_unat take_bit_eq_mod)
qed

lemma frameHeight_eq:
  "frameHeight d =
     (unat (d ! 6) + 256 * unat (d ! 7) + 65536 * unat (d ! 8) + 16777216 * unat (d ! 9)) div 2 ^ 16 mod 2 ^ 14"
proof -
  have m: "(0x3FFF :: 64 word) = mask 14" by (simp add: mask_eq_exp_minus_1)
  have t: "take_bit 64 (unat (headerRaw d)) = unat (headerRaw d)"
    using unsigned_less [of "headerRaw d", where 'a = nat] by (simp add: take_bit_nat_eq_self)
  have "frameHeight d = take_bit 14 (drop_bit 16 (unat (headerRaw d)))"
    unfolding frameHeight_def m
    by (simp add: unsigned_take_bit_eq unsigned_drop_bit_eq t flip: take_bit_eq_mask)
  then show ?thesis by (simp only: headerRaw_unat take_bit_eq_mod drop_bit_eq_div)
qed

lemma videoKeyframe_bit: "videoKeyframe d = (\<not> bit (d ! 0) 0)"
  by (simp add: videoKeyframe_def and_one_eq bit_0 mod_2_eq_odd)

lemma InitWriter_codecCtx [simp]:
  "codecCtx (InitWriter L w h s) = codecCtx s @ [InitDecoder w h]"
  by (simp add: InitWriter_def Let_def)

lemma InitWriter_codecCreated [simp]: "codecCreated (InitWriter L w h s)"
  by (simp add: InitWriter_def Let_def)

lemma InitWriter_imgChan [simp]: "imgChan (InitWriter L w h s) = imgChan s"
  by (simp add: InitWriter_def Let_def)

lemma decodeAndForward_codecCtx:
  "codecCtx (decodeAndForward L Data s) =
     codecCtx s @ DecodeFrame Data # (if decode_frame L (codecCtx s) Data = 0 then [GetFrame] else [])"
  by (simp add: decodeAndForward_def Let_def split: list.splits)

lemma decodeAndForward_codecCreated [simp]:
  "codecCreated (decodeAndForward L Data s) = codecCreated s"
  by (simp add: decodeAndForward_def Let_def split: list.splits)

lemma initialized_append [simp]: "initialized (xs @ ys) = initialized xs @ initialized ys"
  by (induction xs rule: initialized.induct) auto

lemma submitted_append [simp]: "submitted (xs @ ys) = submitted xs @ submitted ys"
  by (induction xs rule: submitted.induct) auto

lemma submitted_GetFrames [simp]: "submitted (replicate n GetFrame) = []"
  by (induction n) auto

lemma initialized_GetFrames [simp]: "initialized (replicate n GetFrame) = []"
  by (induction n) auto

lemma processSample_keyframe:
  "10 \<le> length Data \<Longrightarrow> videoKeyframe Data \<Longrightarrow> \<not> codecCreated s \<Longrightarrow>
   processSample L Data s =
     Ok (decodeAndForward L Data (InitWriter L (frameWidth Data) (frameHeight Data) s))"
  by (auto simp: processSample_def Let_def)

text \<open>
  Claim C3.  For a popped sample of at least ten bytes: it is treated as a keyframe
  exactly when bit 0 of its first byte is clear; with \<open>v\<close> the little-endian value
  of the four bytes at offsets 6 to 9, the width read is \<open>v mod 2^14\<close> (that is
  \<open>v & 0x3FFF\<close>) and the height is \<open>(v div 2^16) mod 2^14\<close> (that is
  \<open>(v >> 16) & 0x3FFF\<close>); on a keyframe, when no decoder was created yet, the sample
  is processed without a panic, the decoder is initialized exactly once, with that
  width and height, before the sample is submitted; in particular with (640, 480) when
  the bytes encode 640 and 480.
\<close>

theorem keyframe_geometry_initializes_decoder:
  assumes len: "10 \<le> length Data"
  shows "(videoKeyframe Data \<longleftrightarrow> \<not> bit (Data ! 0) 0)
    \<and> frameWidth Data =
        (unat (Data ! 6) + 256 * unat (Data ! 7) + 65536 * unat (Data ! 8)
          + 16777216 * unat (Data ! 9)) mod 2 ^ 14
    \<and> frameHeight Data =
        (unat (Data ! 6) + 256 * unat (Data ! 7) + 65536 * unat (Data ! 8)
          + 16777216 * unat (Data ! 9)) div 2 ^ 16 mod 2 ^ 14
    \<and> (videoKeyframe Data \<and> \<not> codecCreated s \<longrightarrow>
         (\<exists>s'. processSample L Data s = Ok s' \<and> codecCreated s'
            \<and> initialized (codecCtx s') =
                initialized (codecCtx s) @ [(frameWidth Data, frameHeight Data)]
            \<and> prefix (codecCtx s @ [InitDecoder (frameWidth Data) (frameHeight Data),
                  DecodeFrame Data]) (codecCtx s')))
    \<and> (videoKeyframe Data \<and> \<not> codecCreated s \<and> frameWidth Data = 640 \<and> frameHeight Data = 480 \<longrightarrow>
         (\<exists>s'. processSample L Data s = Ok s'
            \<and> initialized (codecCtx s') = initialized (codecCtx s) @ [(640, 480)]))"
proof -
  have init: "\<exists>s'. processSample L Data s = Ok s' \<and> codecCreated s'
            \<and> initialized (codecCtx s') =
                initialized (codecCtx s) @ [(frameWidth Data, frameHeight Data)]
            \<and> prefix (codecCtx s @ [InitDecoder (frameWidth Data) (frameHeight Data),
                  DecodeFrame Data]) (codecCtx s')"
    if "videoKeyframe Data" "\<not> codecCreated s"
  proof -
    let ?s = "decodeAndForward L Data (InitWriter L (frameWidth Data) (frameHeight Data) s)"
    have "processSample L Data s = Ok ?s"
      by (rule processSample_keyframe [OF len that])
    moreover have "codecCreated ?s" by simp
    moreover have "initialized (codecCtx ?s) =
        initialized (codecCtx s) @ [(frameWidth Data, frameHeight Data)]"
      by (simp add: decodeAndForward_codecCtx)
    moreover have "prefix (codecCtx s @ [InitDecoder (frameWidth Data) (frameHeight Data),
        DecodeFrame Data]) (codecCtx ?s)"
      by (simp add: decodeAndForward_codecCtx)
    ultimately show ?thesis by blast
  qed
  then have init640: "videoKeyframe Data \<and> \<not> codecCreated s \<and> frameWidth Data = 640
      \<and> frameHeight Data = 480 \<longrightarrow>
         (\<exists>s'. processSample L Data s = Ok s'
            \<and> initialized (codecCtx s') = initialized (codecCtx s) @ [(640, 480)])"
    by metis
  from init init640 show ?thesis
    by (simp only: videoKeyframe_bit frameWidth_eq [symmetric] frameHeight_eq [symmetric]) blast
qed

theorem keyframe_geometry_initializes_decoder_witness:
  "10 \<le> length keyframe640x480 \<and> videoKeyframe keyframe640x480
   \<and> frameWidth keyframe640x480 = 640 \<and> frameHeight keyframe640x480 = 480
   \<and> (\<exists>s'. processSample exampleLib keyframe640x480 newWebmSaver = Ok s'
        \<and> initialized (codecCtx s') = [(640, 480)])"
proof -
  have len: "10 \<le> length keyframe640x480" by (simp add: keyframe640x480_def)
  note t = keyframe_geometry_initializes_decoder [OF len, of newWebmSaver exampleLib]
  have k: "videoKeyframe keyframe640x480"
    by (simp add: videoKeyframe_def keyframe640x480_def)
  have w: "frameWidth keyframe640x480 = 640"
    using t by (simp add: keyframe640x480_def)
  have h: "frameHeight keyframe640x480 = 480"
    using t by (simp add: keyframe640x480_def)
  have c: "\<not> codecCreated newWebmSaver" by (simp add: newWebmSaver_def)
  have "\<exists>s'. processSample exampleLib keyframe640x480 newWebmSaver = Ok s'
        \<and> initialized (codecCtx s') = initialized (codecCtx newWebmSaver) @ [(640, 480)]"
    using t k w h c by blast
  then have "\<exists>s'. processSample exampleLib keyframe640x480 newWebmSaver = Ok s'
        \<and> initialized (codecCtx s') = [(640, 480)]"
    by (simp add: newWebmSaver_def)
  with len k w h show ?thesis by blast
qed

lemma processSample_Panic_iff:
  "(\<exists>p. processSample L Data s = Panic p) \<longleftrightarrow>
     Data = [] \<or> (videoKeyframe Data \<and> length Data < 10)"
  by (auto simp: processSample_def Let_def)

lemma processSample_Panic_kind:
  "processSample L Data s = Panic p \<Longrightarrow> p = (IndexOutOfRange, s)"
  by (auto simp: processSample_def Let_def split: if_splits)

lemma PushVP8_Panic_iff:
  "(\<exists>p. PushVP8 L popped s = Panic p) \<longleftrightarrow>
     (\<exists>Data\<in>set popped. Data = [] \<or> (videoKeyframe Data \<and> length Data < 10))"
proof (induction popped arbitrary: s)
  case Nil
  then show ?case by simp
next
  case (Cons Data popped)
  show ?case
  proof (cases "processSample L Data s")
    case (Panic p)
    then have "Data = [] \<or> (videoKeyframe Data \<and> length Data < 10)"
      using processSample_Panic_iff [of L Data s] by blast
    with Panic show ?thesis by simp
  next
    case (Ok s')
    then have "\<not> (Data = [] \<or> (videoKeyframe Data \<and> length Data < 10))"
      using processSample_Panic_iff [of L Data s] by auto
    with Ok Cons.IH [of s'] show ?thesis by auto
  qed
qed

lemma PushVP8_Panic_kind:
  "PushVP8 L popped s = Panic p \<Longrightarrow> fst p = IndexOutOfRange"
proof (induction popped arbitrary: s)
  case Nil
  then show ?case by simp
next
  case (Cons Data popped)
  show ?case
  proof (cases "processSample L Data s")
    case (Panic q)
    with Cons.prems processSample_Panic_kind [OF Panic] show ?thesis by auto
  next
    case (Ok s')
    with Cons.prems Cons.IH [of s'] show ?thesis by simp
  qed
qed

text \<open>
  Claim C10.  Processing a popped sample panics exactly when the sample is empty, or
  its first byte has bit 0 clear and it is shorter than ten bytes; \<^verbatim>\<open>PushVP8\<close>
  panics exactly when one of the popped samples is of that kind, and the panic is the
  index-out-of-range one.  So the error branch is unreachable only if every sample is
  non-empty and every keyframe sample has at least ten bytes, and a short sample
  reaches it: nothing in \<^verbatim>\<open>PushVP8\<close> checks the length.
\<close>

theorem keyframe_header_read_is_unguarded:
  "((\<exists>p. processSample L Data s = Panic p) \<longleftrightarrow>
      Data = [] \<or> (\<not> bit (Data ! 0) 0 \<and> length Data < 10))
   \<and> ((\<exists>p. PushVP8 L popped s = Panic p) \<longleftrightarrow>
      (\<exists>Data\<in>set popped. Data = [] \<or> (\<not> bit (Data ! 0) 0 \<and> length Data < 10)))
   \<and> (\<forall>p. PushVP8 L popped s = Panic p \<longrightarrow> fst p = IndexOutOfRange)"
  using processSample_Panic_iff [of L Data s] PushVP8_Panic_iff [of L popped s]
    PushVP8_Panic_kind [of L popped s]
  by (simp only: videoKeyframe_bit) blast

theorem keyframe_header_read_is_unguarded_witness:
  "PushVP8 exampleLib [[0x10, 0x02, 0x00]] newWebmSaver = Panic (IndexOutOfRange, newWebmSaver)
   \<and> (\<exists>s'. PushVP8 exampleLib [keyframe640x480, [0x11, 0x01]] newWebmSaver = Ok s')"
proof -
  note t = keyframe_header_read_is_unguarded
    [of exampleLib "[0x10, 0x02, 0x00]" newWebmSaver "[keyframe640x480, [0x11, 0x01]]"]
  have "\<not> (\<exists>Data\<in>set [keyframe640x480, [0x11, 0x01 :: byte]].
      Data = [] \<or> (\<not> bit (Data ! 0) 0 \<and> length Data < 10))"
    by (simp add: keyframe640x480_def)
  with t have "\<not> (\<exists>p. PushVP8 exampleLib [keyframe640x480, [0x11, 0x01]] newWebmSaver = Panic p)"
    by blast
  then have ok: "\<exists>s'. PushVP8 exampleLib [keyframe640x480, [0x11, 0x01]] newWebmSaver = Ok s'"
    by (cases "PushVP8 exampleLib [keyframe640x480, [0x11, 0x01]] newWebmSaver") auto
  have "PushVP8 exampleLib [[0x10, 0x02, 0x00]] newWebmSaver = Panic (IndexOutOfRange, newWebmSaver)"
    by (simp add: processSample_def videoKeyframe_def)
  with ok show ?thesis by blast
qed

subsection \<open>Decoder failures and decoded images\<close>

text \<open>
  The saver state is all that one call of \<^verbatim>\<open>PushVP8\<close> leaves to the next, so samples
  popped over several calls are processed like the same samples popped in one call.
\<close>

lemma PushVP8_append:
  "PushVP8 L (xs @ ys) s = bind (PushVP8 L xs s) (PushVP8 L ys)"
proof (induction xs arbitrary: s)
  case Nil
  then show ?case by simp
next
  case (Cons Data xs)
  then show ?case by (cases "processSample L Data s") simp_all
qed

lemma decodeAndForward_failure:
  "decode_frame L (codecCtx s) Data \<noteq> 0 \<Longrightarrow>
   decodeAndForward L Data s =
     s\<lparr>codecCtx := codecCtx s @ [DecodeFrame Data],
       saverLog := saverLog s @ [Error ''Decode error'']\<rparr>"
  by (simp add: decodeAndForward_def)

lemma decodeCurrentFrame_failure:
  "decode_frame L (codec t) frame \<noteq> 0 \<Longrightarrow>
   decodeCurrentFrame L frame t =
     t\<lparr>codec := codec t @ [DecodeFrame frame],
       trackLog := trackLog t @ [Error ''Failed to decode frame'']\<rparr>"
  by (simp add: decodeCurrentFrame_def)

text \<open>
  Claim C7, on the two paths.  Three frames arrive, each in one packet, and the decoder
  rejects the first.  The buffered path logs the error and submits the second and the
  third sample as they are.  The direct path leaves the loop iteration before
  \<^verbatim>\<open>currentFrame = nil\<close> (line 386), so the rejected bytes stay in
  \<^verbatim>\<open>currentFrame\<close>: what it submits next is the first frame followed by the
  second, then these followed by the third.
\<close>

theorem direct_path_resubmits_failed_frame:
  "submitted (codecCtx (finalState
       (PushVP8 exampleLib [corruptKeyframe, [0x11, 0x01], [0x13, 0x01]] newWebmSaver)))
     = [corruptKeyframe, [0x11, 0x01], [0x13, 0x01]]
   \<and> submitted (codec (finalState
       (OnTrack exampleLib
          [Read (singlePacket 1 corruptKeyframe), Read (singlePacket 2 [0x11, 0x01]),
           Read (singlePacket 3 [0x13, 0x01])])))
     = [corruptKeyframe, corruptKeyframe @ [0x11, 0x01],
        corruptKeyframe @ [0x11, 0x01] @ [0x13, 0x01]]"
  by (simp add: finalState_def OnTrack_def decodeCurrentFrame_def processSample_def
      decodeAndForward_def InitWriter_def videoKeyframe_def exampleLib_def exampleUnmarshal_def
      exampleFrames_def exampleImage_def singlePacket_def corruptKeyframe_def newWebmSaver_def
      Let_def)

lemma saveFrames_codec [simp]: "codec (saveFrames L imgs t) = codec t"
  by (induction imgs arbitrary: t) (simp_all add: Let_def)

lemma saveFrames_currentFrame [simp]: "currentFrame (saveFrames L imgs t) = currentFrame t"
  by (induction imgs arbitrary: t) (simp_all add: Let_def)

lemma saveFrames_seenKeyFrame [simp]: "seenKeyFrame (saveFrames L imgs t) = seenKeyFrame t"
  by (induction imgs arbitrary: t) (simp_all add: Let_def)











subsection \<open>The two ingestion paths\<close>

















end
